theory Spec2Isabelle
  imports Main "HOL-Library.List_Lexorder" "HOL-Library.Multiset" "HOL-Library.Sublist"
begin

section \<open>Text\<close>

text \<open>
  A Python \<open>str\<close> is a sequence of Unicode code points. Code points are natural numbers,
  so a string is a list of them; the order on strings that Python's comparison and
  \<open>list.sort\<close> use (code point by code point, a proper prefix first) is the lexicographic
  order on such lists. \<open>ascii\<close> writes a literal of the source.
\<close>

type_synonym codepoint = nat
type_synonym str = "codepoint list"

definition ascii :: "string \<Rightarrow> str" where
  "ascii s = map of_char s"

text \<open>
  The program calls into the interpreter's Unicode database and into the table of named
  character references of \<open>html.entities\<close>. These tables have thousands of entries and are
  data of the standard library, not of this program, so every function that consults one
  takes them as the argument \<open>L\<close>:
  \<^item> \<open>fold_of L c\<close>: the full case folding of the code point \<open>c\<close> (\<open>chr(c).casefold()\<close>);
  \<^item> \<open>alnum_of L c\<close>: \<open>chr(c).isalnum()\<close>, which with the underscore makes the class \<open>\w\<close>
    of \<open>re\<close>;
  \<^item> \<open>html5 L\<close>: \<open>html.entities.html5\<close>, names (without the ampersand) and their values.
\<close>

record stdlib =
  fold_of :: "codepoint \<Rightarrow> str"
  alnum_of :: "codepoint \<Rightarrow> bool"
  html5 :: "(str \<times> str) list"

text \<open>\<open>str.casefold\<close> folds each code point on its own and concatenates the results.\<close>

definition casefold :: "stdlib \<Rightarrow> str \<Rightarrow> str" where
  "casefold L s = concat (map (fold_of L) s)"

text \<open>
  \<open>str.isspace\<close> for one code point; the class \<open>\s\<close> of \<open>re\<close> on \<open>str\<close> patterns and the
  characters removed by \<open>str.strip\<close> are this same set.
\<close>

definition isspace :: "codepoint \<Rightarrow> bool" where
  "isspace c \<longleftrightarrow>
     (9 \<le> c \<and> c \<le> 13) \<or> (28 \<le> c \<and> c \<le> 32) \<or> c = 133 \<or> c = 160 \<or> c = 5760 \<or>
     (8192 \<le> c \<and> c \<le> 8202) \<or> c = 8232 \<or> c = 8233 \<or> c = 8239 \<or> c = 8287 \<or> c = 12288"

definition lstrip :: "str \<Rightarrow> str" where
  "lstrip s = dropWhile isspace s"

definition rstrip :: "str \<Rightarrow> str" where
  "rstrip s = rev (dropWhile isspace (rev s))"

definition strip :: "str \<Rightarrow> str" where
  "strip s = rstrip (lstrip s)"

text \<open>\<open>sep.join(parts)\<close>.\<close>

fun join :: "str \<Rightarrow> str list \<Rightarrow> str" where
  "join sep [] = []"
| "join sep [x] = x"
| "join sep (x # y # ys) = x @ sep @ join sep (y # ys)"

text \<open>
  \<open>text.replace(old, new)\<close>: the occurrences of \<open>old\<close> are found from the left and do not
  overlap; an empty \<open>old\<close> matches before every character and at the end.
\<close>

function replace_from :: "str \<Rightarrow> str \<Rightarrow> str \<Rightarrow> str" where
  "replace_from old new [] = []"
| "replace_from old new (c # cs) =
     (if old \<noteq> [] \<and> prefix old (c # cs)
      then new @ replace_from old new (drop (length old) (c # cs))
      else c # replace_from old new cs)"
  by pat_completeness auto
termination
  by (relation "measure (\<lambda>(old, new, s). length s)") (auto simp: neq_Nil_conv)

definition replace :: "str \<Rightarrow> str \<Rightarrow> str \<Rightarrow> str" where
  "replace old new s =
     (if old = [] then new @ concat (map (\<lambda>c. c # new) s) else replace_from old new s)"

section \<open>Differ\<close>

text \<open>
  \<open>diff_titles(previous, current)\<close>. The two key sets are Python sets of case-folded
  titles; \<open>list.sort(key=str.casefold)\<close> is a stable sort by the key, as \<open>sort_key\<close> is.
\<close>

definition diff_titles :: "stdlib \<Rightarrow> str list \<Rightarrow> str list \<Rightarrow> str list \<times> str list" where
  "diff_titles L previous current =
     (let previous_keys = set (map (casefold L) previous);
          current_keys = set (map (casefold L) current);
          added = filter (\<lambda>title. casefold L title \<notin> previous_keys) current;
          removed = filter (\<lambda>title. casefold L title \<notin> current_keys) previous
      in (sort_key (casefold L) added, sort_key (casefold L) removed))"

section \<open>Report renderer\<close>

definition replacements :: "(str \<times> str) list" where
  "replacements =
     [([92], [92, 92]),
      (ascii ''*'', 92 # ascii ''*''),
      (ascii ''_'', 92 # ascii ''_''),
      (ascii ''`'', 92 # ascii ''`''),
      (ascii ''['', 92 # ascii ''[''),
      (ascii '']'', 92 # ascii '']'')]"

text \<open>The loop \<open>for before, after in replacements: text = text.replace(before, after)\<close>.\<close>

definition escape_markdown :: "str \<Rightarrow> str" where
  "escape_markdown text = fold (\<lambda>(before, after) text. replace before after text) replacements text"

text \<open>
  \<open>format_issue_body\<close> builds the list \<open>lines\<close> (here \<open>issue_lines\<close>), joins it with
  newlines, strips trailing whitespace and appends one newline.
\<close>

definition added_lines :: "str list \<Rightarrow> str list" where
  "added_lines added =
     (if added \<noteq> []
      then [ascii ''Added:''] @
           map (\<lambda>title. ascii ''- **'' @ escape_markdown title @ ascii ''**'') added @ [[]]
      else [])"

definition removed_lines :: "str list \<Rightarrow> str list" where
  "removed_lines removed =
     (if removed \<noteq> []
      then [ascii ''Removed:''] @
           map (\<lambda>title. ascii ''- '' @ escape_markdown title) removed @ [[]]
      else [])"

definition current_line :: "stdlib \<Rightarrow> str set \<Rightarrow> str \<Rightarrow> str" where
  "current_line L added_keys title =
     (let safe_title = escape_markdown title;
          safe_title = (if casefold L title \<in> added_keys
                        then ascii ''**'' @ safe_title @ ascii ''**'' else safe_title)
      in ascii ''- '' @ safe_title)"

definition issue_lines :: "stdlib \<Rightarrow> str list \<Rightarrow> str list \<Rightarrow> str list \<Rightarrow> str list" where
  "issue_lines L current added removed =
     (let lines = added_lines added @ removed_lines removed @ [ascii ''Current signed titles:''];
          added_keys = set (map (casefold L) added)
      in lines @ map (current_line L added_keys) current)"

definition format_issue_body :: "stdlib \<Rightarrow> str list \<Rightarrow> str list \<Rightarrow> str list \<Rightarrow> str" where
  "format_issue_body L current added removed =
     rstrip (join [10] (issue_lines L current added removed)) @ [10]"

text \<open>
  \<open>format_issue_title\<close>. The last branch reads \<open>removed[0]\<close>; it is reached only with
  \<open>len(added) + len(removed) = 1\<close> and \<open>added\<close> empty, where \<open>removed\<close> has one element.
\<close>

definition format_issue_title :: "str list \<Rightarrow> str list \<Rightarrow> str" where
  "format_issue_title added removed =
     (let total_changes = length added + length removed
      in if total_changes = 0 then []
         else if total_changes > 1 then ascii ''New signed book - multiple''
         else if added \<noteq> [] then ascii ''New signed book - '' @ hd added
         else ascii ''Removed signed book - '' @ hd removed)"

section \<open>Title extractor\<close>

text \<open>
  \<open>HTMLParser.feed\<close> is library code: it tokenizes the markup and calls
  \<open>handle_starttag(tag, attrs)\<close> once for every start tag, in document order, with the
  attributes as a list of name and value pairs (the value is \<open>None\<close> for an attribute
  written without one). That sequence of calls is the input of the embedding.
\<close>

type_synonym attrs = "(str \<times> str option) list"
type_synonym starttag = "str \<times> attrs"

text \<open>Python's truth value of an optional string: \<open>None\<close> and \<open>""\<close> are false.\<close>

definition falsy :: "str option \<Rightarrow> bool" where
  "falsy v \<longleftrightarrow> v = None \<or> v = Some []"

text \<open>
  \<open>ProductTitleParser.handle_starttag\<close>, on the field \<open>self.titles\<close>. \<open>dict(attrs)\<close>
  keeps the last value of a repeated name.
\<close>

definition handle_starttag :: "str list \<Rightarrow> str \<Rightarrow> attrs \<Rightarrow> str list" where
  "handle_starttag titles tag attrs =
     (if tag \<noteq> ascii ''a'' then titles
      else
        let attr_map = map_of (rev attrs);
            href = (case attr_map (ascii ''href'') of None \<Rightarrow> Some [] | Some v \<Rightarrow> v);
            title = (case attr_map (ascii ''title'') of None \<Rightarrow> None | Some v \<Rightarrow> v)
        in if falsy title \<or> falsy href then titles
           else if prefix (ascii ''/products/'') (the href) then titles @ [the title]
           else titles)"

definition parser_titles :: "starttag list \<Rightarrow> str list" where
  "parser_titles events = fold (\<lambda>(tag, attrs) titles. handle_starttag titles tag attrs) events []"

section \<open>Normalizer and filter\<close>

subsection \<open>html.unescape\<close>

definition is_digit :: "codepoint \<Rightarrow> bool" where
  "is_digit c \<longleftrightarrow> 48 \<le> c \<and> c \<le> 57"

definition is_hexdigit :: "codepoint \<Rightarrow> bool" where
  "is_hexdigit c \<longleftrightarrow> is_digit c \<or> (65 \<le> c \<and> c \<le> 70) \<or> (97 \<le> c \<and> c \<le> 102)"

text \<open>The class \<open>[^\t\n\f <&#;]\<close>.\<close>

definition is_namechar :: "codepoint \<Rightarrow> bool" where
  "is_namechar c \<longleftrightarrow> c \<notin> {9, 10, 12, 32, 60, 38, 35, 59}"

text \<open>
  One match of \<open>_charref\<close> right after an ampersand: the text of group 1 and the rest of
  the input. The three alternatives are tried in the order of the pattern; all
  quantifiers are greedy and nothing follows the group, so the first alternative that
  matches decides.
\<close>

definition optional_semicolon :: "str \<Rightarrow> str \<Rightarrow> str \<times> str" where
  "optional_semicolon g rest =
     (case rest of [] \<Rightarrow> (g, rest) | c # r \<Rightarrow> if c = 59 then (g @ [59], r) else (g, rest))"

definition charref_numeric :: "str \<Rightarrow> (str \<times> str) option" where
  "charref_numeric r =
     (if takeWhile is_digit r \<noteq> []
      then Some (35 # takeWhile is_digit r, dropWhile is_digit r)
      else (case r of
              [] \<Rightarrow> None
            | x # h \<Rightarrow>
                if (x = 120 \<or> x = 88) \<and> takeWhile is_hexdigit h \<noteq> []
                then Some (35 # x # takeWhile is_hexdigit h, dropWhile is_hexdigit h)
                else None))"

definition charref_named :: "str \<Rightarrow> (str \<times> str) option" where
  "charref_named s =
     (let name = take 32 (takeWhile is_namechar s)
      in if name \<noteq> [] then Some (name, drop (length name) s) else None)"

definition charref_body :: "str \<Rightarrow> (str \<times> str) option" where
  "charref_body s =
     (case s of
        [] \<Rightarrow> None
      | c # r \<Rightarrow> if c = 35 then charref_numeric r else charref_named s)"

definition charref_match :: "str \<Rightarrow> (str \<times> str) option" where
  "charref_match s =
     (case charref_body s of
        None \<Rightarrow> None
      | Some (g, rest) \<Rightarrow> Some (optional_semicolon g rest))"

text \<open>\<open>int(s)\<close> and \<open>int(s, 16)\<close> on a string of digits.\<close>

definition digit_value :: "codepoint \<Rightarrow> nat" where
  "digit_value c =
     (if is_digit c then c - 48 else if 97 \<le> c then c - 87 else c - 55)"

definition int_of :: "nat \<Rightarrow> str \<Rightarrow> nat" where
  "int_of base s = foldl (\<lambda>n c. n * base + digit_value c) 0 s"

definition rstrip_semicolon :: "str \<Rightarrow> str" where
  "rstrip_semicolon s = rev (dropWhile (\<lambda>c. c = 59) (rev s))"

definition invalid_charrefs :: "(nat \<times> str) list" where
  "invalid_charrefs =
     [(0x00, [0xfffd]), (0x0d, [0x0d]), (0x80, [0x20ac]), (0x81, [0x81]), (0x82, [0x201a]),
      (0x83, [0x0192]), (0x84, [0x201e]), (0x85, [0x2026]), (0x86, [0x2020]), (0x87, [0x2021]),
      (0x88, [0x02c6]), (0x89, [0x2030]), (0x8a, [0x0160]), (0x8b, [0x2039]), (0x8c, [0x0152]),
      (0x8d, [0x8d]), (0x8e, [0x017d]), (0x8f, [0x8f]), (0x90, [0x90]), (0x91, [0x2018]),
      (0x92, [0x2019]), (0x93, [0x201c]), (0x94, [0x201d]), (0x95, [0x2022]), (0x96, [0x2013]),
      (0x97, [0x2014]), (0x98, [0x02dc]), (0x99, [0x2122]), (0x9a, [0x0161]), (0x9b, [0x203a]),
      (0x9c, [0x0153]), (0x9d, [0x9d]), (0x9e, [0x017e]), (0x9f, [0x0178])]"

definition invalid_codepoint :: "nat \<Rightarrow> bool" where
  "invalid_codepoint n \<longleftrightarrow>
     (0x1 \<le> n \<and> n \<le> 0x8) \<or> (0xe \<le> n \<and> n \<le> 0x1f) \<or> (0x7f \<le> n \<and> n \<le> 0x9f) \<or>
     (0xfdd0 \<le> n \<and> n \<le> 0xfdef) \<or> n = 0xb \<or>
     (n \<le> 0x10ffff \<and> (n mod 0x10000 = 0xfffe \<or> n mod 0x10000 = 0xffff))"

text \<open>\<open>_replace_charref\<close>, on the text of group 1.\<close>

definition replace_charref :: "stdlib \<Rightarrow> str \<Rightarrow> str" where
  "replace_charref L s =
     (if hd s = 35 then
        let num = (if s ! 1 = 120 \<or> s ! 1 = 88
                   then int_of 16 (rstrip_semicolon (drop 2 s))
                   else int_of 10 (rstrip_semicolon (drop 1 s)))
        in case map_of invalid_charrefs num of
             Some r \<Rightarrow> r
           | None \<Rightarrow>
               if (0xD800 \<le> num \<and> num \<le> 0xDFFF) \<or> num > 0x10FFFF then [0xFFFD]
               else if invalid_codepoint num then []
               else [num]
      else
        case map_of (html5 L) s of
          Some r \<Rightarrow> r
        | None \<Rightarrow>
            (case find (\<lambda>x. map_of (html5 L) (take x s) \<noteq> None) (rev [2..<length s]) of
               Some x \<Rightarrow> the (map_of (html5 L) (take x s)) @ drop x s
             | None \<Rightarrow> 38 # s))"

text \<open>\<open>_charref.sub(_replace_charref, s)\<close>: matches are found from the left.\<close>

function charref_sub :: "stdlib \<Rightarrow> str \<Rightarrow> str" where
  "charref_sub L [] = []"
| "charref_sub L (c # cs) =
     (if c = 38 then
        (case charref_match cs of
           Some (g, rest) \<Rightarrow> replace_charref L g @ charref_sub L rest
         | None \<Rightarrow> c # charref_sub L cs)
      else c # charref_sub L cs)"
  by pat_completeness auto
termination
proof (relation "measure (\<lambda>(L, s). length s)")
  show "wf (measure (\<lambda>(L, s). length s))" by simp
next
  fix L :: stdlib and c :: codepoint and cs x2 g rest
  assume "charref_match cs = Some x2" and "(g, rest) = x2"
  then obtain b r where b: "charref_body cs = Some (b, r)"
    and o: "optional_semicolon b r = (g, rest)"
    by (auto simp: charref_match_def split: option.splits)
  have named: "charref_named s = Some (b, r) \<Longrightarrow> b @ r = s" for s
  proof -
    assume n: "charref_named s = Some (b, r)"
    define k where "k = min 32 (length (takeWhile is_namechar s))"
    have t: "take 32 (takeWhile is_namechar s) = take k s"
      unfolding k_def by (metis takeWhile_eq_take take_take)
    have "k \<le> length s"
      unfolding k_def using length_takeWhile_le [of is_namechar s] by simp
    then have l: "length (take k s) = k" by simp
    from n have "b = take k s" and "r = drop k s"
      unfolding charref_named_def Let_def t l by (simp_all split: if_splits)
    then show "b @ r = s" by simp
  qed
  have numeric: "charref_numeric s = Some (b, r) \<Longrightarrow> b @ r = 35 # s" for s
    by (auto simp: charref_numeric_def split: if_splits list.splits)
  have "b @ r = cs"
    using b named [of cs] numeric
    by (auto simp: charref_body_def split: list.splits if_splits)
  moreover have "g @ rest = b @ r"
    using o by (auto simp: optional_semicolon_def split: list.splits if_splits)
  ultimately have "length rest \<le> length cs"
    by (metis length_append le_add2)
  then show "((L, rest), (L, c # cs)) \<in> measure (\<lambda>(L, s). length s)" by simp
qed simp_all

definition unescape :: "stdlib \<Rightarrow> str \<Rightarrow> str" where
  "unescape L s = (if 38 \<notin> set s then s else charref_sub L s)"

subsection \<open>normalize_title\<close>

text \<open>\<open>WHITESPACE_RE.sub(" ", text)\<close>: every maximal run of whitespace becomes one space.\<close>

function whitespace_sub :: "str \<Rightarrow> str" where
  "whitespace_sub [] = []"
| "whitespace_sub (c # cs) =
     (if isspace c then 32 # whitespace_sub (dropWhile isspace cs) else c # whitespace_sub cs)"
  by pat_completeness auto
termination
  by (relation "measure length") (simp_all add: less_Suc_eq_le length_dropWhile_le)

definition normalize_title :: "stdlib \<Rightarrow> str \<Rightarrow> str" where
  "normalize_title L title = strip (whitespace_sub (unescape L title))"

subsection \<open>The pattern SIGNED_RE\<close>

text \<open>
  \<open>SIGNED_RE = re.compile(r"\bElantris\b", re.IGNORECASE)\<close>. Under \<open>re.IGNORECASE\<close> an
  ASCII character of a pattern matches itself, its other case and, for the letters i, s
  and k, the code points that lower-case or fold to them (U+0130, U+0131; U+017F;
  U+212A).
\<close>

definition matches_ignorecase :: "codepoint \<Rightarrow> codepoint \<Rightarrow> bool" where
  "matches_ignorecase p c \<longleftrightarrow>
     (let lo = (if 65 \<le> p \<and> p \<le> 90 then p + 32 else p);
          up = (if 97 \<le> p \<and> p \<le> 122 then p - 32 else p)
      in c = lo \<or> c = up \<or> (lo = 105 \<and> (c = 0x130 \<or> c = 0x131)) \<or> (lo = 115 \<and> c = 0x17f)
         \<or> (lo = 107 \<and> c = 0x212a))"

definition keyword :: str where
  "keyword = ascii ''Elantris''"

text \<open>
  \<open>\b\<close> holds between two positions when exactly one of the neighbouring characters is a
  word character (\<open>\w\<close>: alphanumeric or underscore); beyond either end of the string
  there is no word character.
\<close>

definition is_word :: "stdlib \<Rightarrow> codepoint option \<Rightarrow> bool" where
  "is_word L x = (case x of None \<Rightarrow> False | Some c \<Rightarrow> alnum_of L c \<or> c = 95)"

definition word_boundary :: "stdlib \<Rightarrow> codepoint option \<Rightarrow> codepoint option \<Rightarrow> bool" where
  "word_boundary L before after \<longleftrightarrow> is_word L before \<noteq> is_word L after"

definition first_of :: "str \<Rightarrow> codepoint option" where
  "first_of s = (case s of [] \<Rightarrow> None | c # _ \<Rightarrow> Some c)"

definition last_of :: "str \<Rightarrow> codepoint option" where
  "last_of s = (if s = [] then None else Some (last s))"

text \<open>The pattern matched at the start of \<open>s\<close>, with \<open>before\<close> the character in front of it.\<close>

definition match_here :: "stdlib \<Rightarrow> codepoint option \<Rightarrow> str \<Rightarrow> bool" where
  "match_here L before s \<longleftrightarrow>
     (let w = take (length keyword) s; rest = drop (length keyword) s
      in word_boundary L before (first_of s)
         \<and> list_all2 matches_ignorecase keyword w
         \<and> word_boundary L (last_of w) (first_of rest))"

fun search_from :: "stdlib \<Rightarrow> codepoint option \<Rightarrow> str \<Rightarrow> bool" where
  "search_from L before [] = False"
| "search_from L before (c # cs) \<longleftrightarrow> match_here L before (c # cs) \<or> search_from L (Some c) cs"

text \<open>The truth value of \<open>SIGNED_RE.search(title)\<close>.\<close>

definition SIGNED_RE_search :: "stdlib \<Rightarrow> str \<Rightarrow> bool" where
  "SIGNED_RE_search L title = search_from L None title"

subsection \<open>extract_titles\<close>

text \<open>One round of the loop over \<open>parser.titles\<close>, on the pair of \<open>seen\<close> and \<open>titles\<close>.\<close>

definition title_step :: "stdlib \<Rightarrow> str \<Rightarrow> str set \<times> str list \<Rightarrow> str set \<times> str list" where
  "title_step L raw_title st =
     (case st of (seen, titles) \<Rightarrow>
        let title = normalize_title L raw_title
        in if title = [] then (seen, titles)
           else if \<not> SIGNED_RE_search L title then (seen, titles)
           else let key = casefold L title
                in if key \<in> seen then (seen, titles)
                   else (insert key seen, titles @ [title]))"

text \<open>
  The body of \<open>extract_titles\<close> after \<open>parser.feed\<close>: the loop and the sort. This is the
  Normalizer/Filter stage, from the candidate list to the title list.
\<close>

definition filter_titles :: "stdlib \<Rightarrow> str list \<Rightarrow> str list" where
  "filter_titles L raw_titles =
     (case fold (title_step L) raw_titles ({}, []) of
        (seen, titles) \<Rightarrow> sort_key (casefold L) titles)"

definition extract_titles :: "stdlib \<Rightarrow> starttag list \<Rightarrow> str list" where
  "extract_titles L events = filter_titles L (parser_titles events)"

section \<open>A library table for examples\<close>

text \<open>
  A library table for examples: it agrees with CPython's tables on the code points below
  128 (case folding of A to Z, the ASCII letters and digits) and lists the named references
  of the XML predefined entities and the no-break space.
\<close>

definition basic_latin :: stdlib where
  "basic_latin =
     \<lparr> fold_of = (\<lambda>c. if 65 \<le> c \<and> c \<le> 90 then [c + 32] else [c]),
       alnum_of = (\<lambda>c. (48 \<le> c \<and> c \<le> 57) \<or> (65 \<le> c \<and> c \<le> 90) \<or> (97 \<le> c \<and> c \<le> 122)),
       html5 = [(ascii ''amp;'', ascii ''&''), (ascii ''amp'', ascii ''&''),
                (ascii ''lt;'', ascii ''<''), (ascii ''lt'', ascii ''<''),
                (ascii ''gt;'', ascii ''>''), (ascii ''gt'', ascii ''>''),
                (ascii ''quot;'', [34]), (ascii ''quot'', [34]),
                (ascii ''apos;'', [39]),
                (ascii ''nbsp;'', [160]), (ascii ''nbsp'', [160])] \<rparr>"

section \<open>Properties of the text functions\<close>

lemma replace_single:
  "replace [b] new s = concat (map (\<lambda>c. if c = b then new else [c]) s)"
  by (induction s) (auto simp: replace_def)

lemma escape_markdown_Nil: "escape_markdown [] = []"
  by (simp add: escape_markdown_def replacements_def ascii_def replace_single)

lemma escape_markdown_Cons:
  "escape_markdown (c # cs) =
     (if c \<in> {92, 42, 95, 96, 91, 93} then [92, c] else [c]) @ escape_markdown cs"
  by (simp add: escape_markdown_def replacements_def ascii_def replace_single)

lemma escape_markdown_concat:
  "escape_markdown s =
     concat (map (\<lambda>c. if c \<in> {92, 42, 95, 96, 91, 93} then [92, c] else [c]) s)"
  by (induction s) (simp_all only: escape_markdown_Cons escape_markdown_Nil list.map concat.simps)

lemma rstrip_append:
  "rstrip (a @ b) = (if list_all isspace b then rstrip a else a @ rstrip b)"
  by (simp add: rstrip_def dropWhile_append list_all_iff)

lemma rstrip_prefix: "prefix (rstrip x) x"
proof -
  have "rev x = takeWhile isspace (rev x) @ dropWhile isspace (rev x)" by simp
  then have "x = rev (dropWhile isspace (rev x)) @ rev (takeWhile isspace (rev x))"
    by (metis rev_append rev_rev_ident)
  then show ?thesis unfolding rstrip_def by (metis prefixI)
qed

lemma sublist_rstrip_mid: "sublist (rstrip x) (rstrip (pre @ x @ post))"
proof (cases "list_all isspace post")
  case True
  show ?thesis
  proof (cases "list_all isspace x")
    case True
    then have "rstrip x = []" by (simp add: rstrip_def list_all_iff dropWhile_eq_Nil_conv)
    then show ?thesis by simp
  next
    case False
    with True have "rstrip (pre @ x @ post) = pre @ rstrip x"
      by (simp add: rstrip_append)
    then show ?thesis by (simp add: sublist_appendI)
  qed
next
  case False
  then have "rstrip (pre @ x @ post) = pre @ x @ rstrip post"
    by (simp add: rstrip_append)
  moreover have "sublist (rstrip x) x" using rstrip_prefix by (rule prefix_imp_sublist)
  ultimately show ?thesis
    by (metis sublist_appendI sublist_order.order_trans)
qed

lemma join_mem: "l \<in> set ls \<Longrightarrow> \<exists>pre post. join sep ls = pre @ l @ post"
proof (induction sep ls rule: join.induct)
  case (1 sep)
  then show ?case by simp
next
  case (2 sep x)
  then show ?case
    by (metis append_Nil append_Nil2 join.simps(2) empty_iff empty_set set_ConsD)
next
  case (3 sep x y ys)
  show ?case
  proof (cases "l = x")
    case True
    then show ?thesis by (metis append_Nil join.simps(3))
  next
    case False
    with 3 obtain pre post where "join sep (y # ys) = pre @ l @ post" by auto
    then have "join sep (x # y # ys) = (x @ sep @ pre) @ l @ post" by simp
    then show ?thesis by blast
  qed
qed

section \<open>Properties of the report renderer\<close>

lemma line_in_body:
  assumes "l \<in> set (issue_lines L current added removed)"
  shows "sublist (rstrip l) (format_issue_body L current added removed)"
proof -
  obtain pre post where "join [10] (issue_lines L current added removed) = pre @ l @ post"
    using join_mem [OF assms] by blast
  then have "sublist (rstrip l) (rstrip (join [10] (issue_lines L current added removed)))"
    using sublist_rstrip_mid [of l pre post] by simp
  then show ?thesis
    unfolding format_issue_body_def
    by (metis sublist_appendI sublist_order.order_trans sublist_order.order_refl append_Nil)
qed

lemma current_line_mem:
  "title \<in> set current \<Longrightarrow>
     current_line L (set (map (casefold L) added)) title \<in> set (issue_lines L current added removed)"
  by (simp add: issue_lines_def Let_def)

lemma sublist_escaped_current_line:
  "sublist (rstrip (escape_markdown title)) (rstrip (current_line L ks title))"
proof (cases "casefold L title \<in> ks")
  case True
  then have "current_line L ks title = ascii ''- **'' @ escape_markdown title @ ascii ''**''"
    by (simp add: current_line_def Let_def ascii_def)
  then show ?thesis using sublist_rstrip_mid by simp
next
  case False
  then have "current_line L ks title = ascii ''- '' @ escape_markdown title @ []"
    by (simp add: current_line_def Let_def)
  then show ?thesis using sublist_rstrip_mid by metis
qed

lemma issue_lines_nth:
  "i < length current \<Longrightarrow>
     issue_lines L current added removed
       ! (length (added_lines added) + length (removed_lines removed) + 1 + i)
     = current_line L (set (map (casefold L) added)) (current ! i)"
proof -
  assume i: "i < length current"
  have "issue_lines L current added removed =
          (added_lines added @ removed_lines removed @ [ascii ''Current signed titles:''])
          @ map (current_line L (set (map (casefold L) added))) current"
    by (simp add: issue_lines_def Let_def)
  moreover have "length (added_lines added @ removed_lines removed @ [ascii ''Current signed titles:''])
      = length (added_lines added) + length (removed_lines removed) + 1" by simp
  ultimately show ?thesis using i
    by (metis nth_append_length_plus nth_map)
qed

text \<open>
  C7. \<open>escape_markdown\<close> puts a backslash before each of the six characters
  \<open>\ * _ ` [ ]\<close> (code points 92, 42, 95, 96, 91, 93) and leaves every other character as
  it is: the six replacements, run in the order of the table with the backslash first, act
  as one simultaneous substitution. Every title of \<open>current\<close> occurs in the rendered body
  in this escaped form (up to whitespace at its end, which \<open>rstrip\<close> may cut off the last
  line).
\<close>

theorem escape_markdown_spec:
  "escape_markdown s =
     concat (map (\<lambda>c. if c \<in> {92, 42, 95, 96, 91, 93} then [92, c] else [c]) s)
   \<and> (title \<in> set current \<longrightarrow>
        sublist (rstrip (escape_markdown title)) (format_issue_body L current added removed))"
proof
  show "escape_markdown s =
     concat (map (\<lambda>c. if c \<in> {92, 42, 95, 96, 91, 93} then [92, c] else [c]) s)"
    by (rule escape_markdown_concat)
next
  show "title \<in> set current \<longrightarrow>
        sublist (rstrip (escape_markdown title)) (format_issue_body L current added removed)"
  proof
    assume "title \<in> set current"
    then have "sublist (rstrip (current_line L (set (map (casefold L) added)) title))
                 (format_issue_body L current added removed)"
      by (rule line_in_body [OF current_line_mem])
    with sublist_escaped_current_line show "sublist (rstrip (escape_markdown title))
        (format_issue_body L current added removed)"
      by (metis sublist_order.order_trans)
  qed
qed

theorem escape_markdown_spec_witness:
  "escape_markdown (ascii ''a*b_c'') = ascii ''a'' @ [92] @ ascii ''*b'' @ [92] @ ascii ''_c''
   \<and> ascii ''a*b_c'' \<in> set [ascii ''a*b_c'']
   \<and> sublist (ascii ''a'' @ [92] @ ascii ''*b'' @ [92] @ ascii ''_c'')
        (format_issue_body basic_latin [ascii ''a*b_c''] [] [])"
proof -
  note spec = escape_markdown_spec [of "ascii ''a*b_c''" "ascii ''a*b_c''" "[ascii ''a*b_c'']"
      basic_latin "[]" "[]"]
  have e: "escape_markdown (ascii ''a*b_c'') = ascii ''a'' @ [92] @ ascii ''*b'' @ [92] @ ascii ''_c''"
    using spec by (simp add: ascii_def)
  have m: "ascii ''a*b_c'' \<in> set [ascii ''a*b_c'']" by simp
  with spec have "sublist (rstrip (escape_markdown (ascii ''a*b_c'')))
      (format_issue_body basic_latin [ascii ''a*b_c''] [] [])" by blast
  then have "sublist (ascii ''a'' @ [92] @ ascii ''*b'' @ [92] @ ascii ''_c'')
      (format_issue_body basic_latin [ascii ''a*b_c''] [] [])"
    by (simp add: e) (simp add: ascii_def rstrip_def isspace_def)
  with e m show ?thesis by blast
qed

text \<open>
  C10. The line of the \<open>i\<close>-th current title stands after the "Added:" and "Removed:"
  sections and the heading. It is the bold form \<open>- **title**\<close> exactly when the case-folded
  title is the case-folded form of some element of \<open>added\<close>, and the plain form \<open>- title\<close>
  otherwise; the two forms differ, and the line is part of the body.
\<close>

theorem current_titles_bold:
  "i < length current \<Longrightarrow>
    (let line = issue_lines L current added removed
                  ! (length (added_lines added) + length (removed_lines removed) + 1 + i);
         bold = ascii ''- **'' @ escape_markdown (current ! i) @ ascii ''**'';
         plain = ascii ''- '' @ escape_markdown (current ! i)
     in (line = bold \<longleftrightarrow> casefold L (current ! i) \<in> casefold L ` set added)
        \<and> (line = bold \<or> line = plain) \<and> bold \<noteq> plain
        \<and> sublist (rstrip line) (format_issue_body L current added removed))"
proof -
  assume i: "i < length current"
  have neq: "ascii ''- **'' @ escape_markdown (current ! i) @ ascii ''**''
               \<noteq> ascii ''- '' @ escape_markdown (current ! i)"
    by (simp add: ascii_def)
  have mem: "current_line L (set (map (casefold L) added)) (current ! i)
               \<in> set (issue_lines L current added removed)"
    using i current_line_mem [of "current ! i" current L added removed] by (metis nth_mem)
  have line: "current_line L ks (current ! i) =
      (if casefold L (current ! i) \<in> ks
       then ascii ''- **'' @ escape_markdown (current ! i) @ ascii ''**''
       else ascii ''- '' @ escape_markdown (current ! i))" for ks
    by (simp add: current_line_def Let_def ascii_def)
  show ?thesis
    unfolding Let_def issue_lines_nth [OF i]
    using neq line_in_body [OF mem] by (simp add: line)
qed

theorem current_titles_bold_witness:
  "(0::nat) < length [ascii ''ELANTRIS Signed'', ascii ''Mistborn'']
   \<and> issue_lines basic_latin [ascii ''ELANTRIS Signed'', ascii ''Mistborn'']
         [ascii ''Elantris signed''] [] ! 4
       = ascii ''- **ELANTRIS Signed**''
   \<and> sublist (ascii ''- **ELANTRIS Signed**'')
       (format_issue_body basic_latin [ascii ''ELANTRIS Signed'', ascii ''Mistborn'']
          [ascii ''Elantris signed''] [])"
proof -
  have i: "(0::nat) < length [ascii ''ELANTRIS Signed'', ascii ''Mistborn'']" by simp
  have k: "casefold basic_latin ([ascii ''ELANTRIS Signed'', ascii ''Mistborn''] ! 0)
             \<in> casefold basic_latin ` set [ascii ''Elantris signed'']"
    by (simp add: casefold_def basic_latin_def ascii_def)
  have n: "length (added_lines [ascii ''Elantris signed'']) + length (removed_lines []) + 1 + 0 = 4"
    by (simp add: added_lines_def removed_lines_def)
  have e: "escape_markdown (ascii ''ELANTRIS Signed'') = ascii ''ELANTRIS Signed''"
    by (simp add: escape_markdown_concat ascii_def)
  note T = current_titles_bold [OF i, of basic_latin "[ascii ''Elantris signed'']" "[]",
      unfolded Let_def n]
  have l: "issue_lines basic_latin [ascii ''ELANTRIS Signed'', ascii ''Mistborn'']
             [ascii ''Elantris signed''] [] ! 4
          = ascii ''- **'' @ escape_markdown ([ascii ''ELANTRIS Signed'', ascii ''Mistborn''] ! 0)
              @ ascii ''**''"
    using T k by blast
  then have l': "issue_lines basic_latin [ascii ''ELANTRIS Signed'', ascii ''Mistborn'']
             [ascii ''Elantris signed''] [] ! 4
          = ascii ''- **ELANTRIS Signed**''"
    by (simp add: e) (simp add: ascii_def)
  have "sublist (rstrip (issue_lines basic_latin [ascii ''ELANTRIS Signed'', ascii ''Mistborn'']
             [ascii ''Elantris signed''] [] ! 4))
           (format_issue_body basic_latin [ascii ''ELANTRIS Signed'', ascii ''Mistborn'']
             [ascii ''Elantris signed''] [])"
    using T by blast
  then have "sublist (ascii ''- **ELANTRIS Signed**'')
           (format_issue_body basic_latin [ascii ''ELANTRIS Signed'', ascii ''Mistborn'']
             [ascii ''Elantris signed''] [])"
    unfolding l' by (simp add: ascii_def rstrip_def isspace_def)
  with i l' show ?thesis by blast
qed

text \<open>
  C5. \<open>format_issue_title\<close> returns the empty string exactly when both lists are empty,
  the fixed label "New signed book - multiple" when the two lists have more than one
  element together (one added and one removed included), the label naming the added title
  when the only change is an addition, and the label naming the removed title when the
  only change is a removal.
\<close>

theorem format_issue_title_spec:
  "(format_issue_title added removed = [] \<longleftrightarrow> added = [] \<and> removed = [])
   \<and> (length added + length removed > 1 \<longrightarrow>
        format_issue_title added removed = ascii ''New signed book - multiple'')
   \<and> (length added + length removed = 1 \<and> added \<noteq> [] \<longrightarrow>
        (\<exists>a. added = [a] \<and> removed = [] \<and>
             format_issue_title added removed = ascii ''New signed book - '' @ a))
   \<and> (length added + length removed = 1 \<and> added = [] \<longrightarrow>
        (\<exists>r. removed = [r] \<and>
             format_issue_title added removed = ascii ''Removed signed book - '' @ r))"
  by (cases added; cases removed)
     (auto simp: format_issue_title_def Let_def ascii_def length_Suc_conv)

theorem format_issue_title_spec_witness:
  "format_issue_title [ascii ''Warbreaker Signed''] [] = ascii ''New signed book - Warbreaker Signed''
   \<and> format_issue_title [] [ascii ''A Signed''] = ascii ''Removed signed book - A Signed''
   \<and> format_issue_title [ascii ''B Signed''] [ascii ''A Signed''] = ascii ''New signed book - multiple''"
  using format_issue_title_spec [of "[ascii ''Warbreaker Signed'']" "[]"]
        format_issue_title_spec [of "[]" "[ascii ''A Signed'']"]
        format_issue_title_spec [of "[ascii ''B Signed'']" "[ascii ''A Signed'']"]
  by (simp add: ascii_def)

section \<open>Properties of the differ\<close>

text \<open>
  C4. \<open>added\<close> holds exactly the current titles whose case-folded form is not the
  case-folded form of a previous title, each as often and in the casing it has in
  \<open>current\<close>, in ascending order of the case-folded form, titles with equal keys in their
  order in \<open>current\<close>; \<open>removed\<close> is the same with the two lists exchanged. The function
  is total, and an empty list on either side gives the empty result on the other.
\<close>

theorem diff_titles_spec:
  "(case diff_titles L previous current of (added, removed) \<Rightarrow>
      mset added = filter_mset (\<lambda>t. casefold L t \<notin> casefold L ` set previous) (mset current)
    \<and> sorted (map (casefold L) added)
    \<and> (\<forall>k. filter (\<lambda>t. casefold L t = k) added =
             filter (\<lambda>t. casefold L t = k \<and> k \<notin> casefold L ` set previous) current)
    \<and> mset removed = filter_mset (\<lambda>t. casefold L t \<notin> casefold L ` set current) (mset previous)
    \<and> sorted (map (casefold L) removed)
    \<and> (\<forall>k. filter (\<lambda>t. casefold L t = k) removed =
             filter (\<lambda>t. casefold L t = k \<and> k \<notin> casefold L ` set current) previous))
   \<and> diff_titles L [] [] = ([], [])
   \<and> fst (diff_titles L previous []) = []
   \<and> snd (diff_titles L [] current) = []"
  by (auto simp: diff_titles_def Let_def sort_key_stable intro!: filter_cong)

theorem diff_titles_spec_witness:
  "diff_titles basic_latin [ascii ''elantris signed'', ascii ''B Signed'', ascii ''a signed'']
       [ascii ''Warbreaker Signed'', ascii ''ELANTRIS Signed'', ascii ''Mistborn signed'']
     = ([ascii ''Mistborn signed'', ascii ''Warbreaker Signed''],
        [ascii ''a signed'', ascii ''B Signed''])"
  using diff_titles_spec [of basic_latin
       "[ascii ''elantris signed'', ascii ''B Signed'', ascii ''a signed'']"
       "[ascii ''Warbreaker Signed'', ascii ''ELANTRIS Signed'', ascii ''Mistborn signed'']"]
  by (simp add: diff_titles_def Let_def casefold_def basic_latin_def ascii_def)

text \<open>
  C9. Diffing a title list against itself gives no added and no removed title.
\<close>

theorem diff_titles_same:
  "diff_titles L A A = ([], [])"
  by (simp add: diff_titles_def Let_def)

end
